theory Spec2Isabelle
  imports Main
begin

section \<open>Orchestrator.py: the pipeline driver\<close>

text \<open>
  A shallow embedding of \<^verbatim>\<open>src/Orchestrator/Orchestrator.py\<close>. Python \<^verbatim>\<open>str\<close> values
  are modelled as \<open>string\<close>, read as the UTF-8 bytes of the text: the characters the
  program inspects (\<^verbatim>\<open>^ $ \ / . _\<close>) are ASCII, and no byte of a multi-byte UTF-8
  sequence is ASCII, so working on bytes and working on code points agree here.
  Paths follow \<^verbatim>\<open>posixpath\<close> (separator \<^verbatim>\<open>/\<close>).
\<close>

subsection \<open>Strings\<close>

text \<open>\<^verbatim>\<open>sep.join(xs)\<close> on a list of strings.\<close>

fun str_join :: "string \<Rightarrow> string list \<Rightarrow> string" where
  "str_join sep [] = []"
| "str_join sep [x] = x"
| "str_join sep (x # y # ys) = x @ sep @ str_join sep (y # ys)"

text \<open>
  \<^verbatim>\<open>s.strip(chars)\<close>: CPython advances a left index over the characters that occur in
  \<^verbatim>\<open>chars\<close>, then moves a right index back, never past the left one, and returns the
  slice between the two.
\<close>

definition str_lstrip :: "string \<Rightarrow> string \<Rightarrow> string" where
  "str_lstrip s chars = dropWhile (\<lambda>c. c \<in> set chars) s"

definition str_rstrip :: "string \<Rightarrow> string \<Rightarrow> string" where
  "str_rstrip s chars = rev (dropWhile (\<lambda>c. c \<in> set chars) (rev s))"

definition str_strip :: "string \<Rightarrow> string \<Rightarrow> string" where
  "str_strip s chars = str_rstrip (str_lstrip s chars) chars"

text \<open>\<^verbatim>\<open>s.rfind(c)\<close> for a one-character needle: the highest index of \<open>c\<close>, or \<open>-1\<close>.\<close>

definition str_rfind :: "string \<Rightarrow> char \<Rightarrow> int" where
  "str_rfind s c =
     (if c \<in> set s then int (length s) - 1 - int (length (takeWhile (\<lambda>x. x \<noteq> c) (rev s)))
      else - 1)"

text \<open>The slices \<^verbatim>\<open>s[:i]\<close> and \<^verbatim>\<open>s[i:]\<close> for an index \<open>i \<ge> 0\<close>.\<close>

definition slice_to :: "string \<Rightarrow> int \<Rightarrow> string" where
  "slice_to s i = take (nat i) s"

definition slice_from :: "string \<Rightarrow> int \<Rightarrow> string" where
  "slice_from s i = drop (nat i) s"

subsection \<open>posixpath\<close>

definition sep :: char where
  "sep = CHR ''/''"

definition extsep :: char where
  "extsep = CHR ''.''"

text \<open>
  \<^verbatim>\<open>os.path.join(a, b)\<close> on two strings: an absolute \<open>b\<close> replaces \<open>a\<close>; otherwise \<open>b\<close>
  is appended, after a separator unless \<open>a\<close> is empty or already ends with one.
\<close>

definition os_path_join :: "string \<Rightarrow> string \<Rightarrow> string" where
  "os_path_join a b =
     (if b \<noteq> [] \<and> hd b = sep then b
      else if a = [] \<or> last a = sep then a @ b
      else a @ [sep] @ b)"

text \<open>\<^verbatim>\<open>os.path.isabs(p)\<close>: \<^verbatim>\<open>p.startswith('/')\<close>.\<close>

definition os_path_isabs :: "string \<Rightarrow> bool" where
  "os_path_isabs p = (p \<noteq> [] \<and> hd p = sep)"

text \<open>\<^verbatim>\<open>os.path.basename(p)\<close>: \<^verbatim>\<open>p[p.rfind('/') + 1:]\<close>.\<close>

definition os_path_basename :: "string \<Rightarrow> string" where
  "os_path_basename p = slice_from p (str_rfind p sep + 1)"

text \<open>
  \<^verbatim>\<open>os.path.splitext(p)\<close> (\<^verbatim>\<open>genericpath._splitext\<close>): split at the last dot when it lies
  after the last separator and some character between the two is not a dot (leading
  dots of the file name do not start an extension).
\<close>

definition os_path_splitext :: "string \<Rightarrow> string \<times> string" where
  "os_path_splitext p =
     (let sepIndex = str_rfind p sep;
          dotIndex = str_rfind p extsep
      in if dotIndex > sepIndex \<and>
            list_ex (\<lambda>c. c \<noteq> extsep) (slice_to (slice_from p (sepIndex + 1)) (dotIndex - (sepIndex + 1)))
         then (slice_to p dotIndex, slice_from p dotIndex)
         else (p, []))"

subsection \<open>Pattern normalization (line 93)\<close>

text \<open>The argument of \<^verbatim>\<open>strip\<close> on line 93, \<^verbatim>\<open>'^$\\'\<close>: caret, dollar, backslash.\<close>

definition strip_chars :: string where
  "strip_chars = [CHR ''^'', CHR ''$'', CHR 0x5C]"

text \<open>\<^verbatim>\<open>target_name = api_pattern.strip('^$\\')\<close>.\<close>

definition target_name :: "string \<Rightarrow> string" where
  "target_name api_pattern = str_strip api_pattern strip_chars"

subsection \<open>Values read from the threat map\<close>

text \<open>
  What \<^verbatim>\<open>json.load\<close> returns: \<^verbatim>\<open>None\<close>, \<^verbatim>\<open>bool\<close>, \<^verbatim>\<open>int\<close>, \<^verbatim>\<open>float\<close>, \<^verbatim>\<open>str\<close>,
  \<^verbatim>\<open>list\<close> and \<^verbatim>\<open>dict\<close> with string keys. The program only ever tests a float for
  truth, so a float carries just that: whether it is non-zero. An object keeps its
  members in document order; \<^verbatim>\<open>json.load\<close> lets a later duplicate key overwrite an
  earlier one.
\<close>

datatype json =
    JNull
  | JBool bool
  | JInt int
  | JFloat (nonzero: bool)
  | JStr string
  | JList "json list"
  | JObj "(string \<times> json) list"

text \<open>Python truth value testing (\<^verbatim>\<open>not x\<close>) on such a value.\<close>

fun truthy :: "json \<Rightarrow> bool" where
  "truthy JNull = False"
| "truthy (JBool b) = b"
| "truthy (JInt n) = (n \<noteq> 0)"
| "truthy (JFloat nz) = nz"
| "truthy (JStr s) = (s \<noteq> [])"
| "truthy (JList xs) = (xs \<noteq> [])"
| "truthy (JObj kvs) = (kvs \<noteq> [])"

text \<open>\<^verbatim>\<open>d.get(k, default)\<close> on the members of an object; the last binding of a key wins.\<close>

definition dict_get :: "(string \<times> json) list \<Rightarrow> string \<Rightarrow> json \<Rightarrow> json" where
  "dict_get kvs k dflt = (case map_of (rev kvs) k of None \<Rightarrow> dflt | Some v \<Rightarrow> v)"

subsection \<open>Exceptions\<close>

text \<open>
  An exception that leaves a function: \<^verbatim>\<open>SystemExit\<close> with its code (raised by
  \<^verbatim>\<open>sys.exit\<close>), or any other exception, by class name. Nothing in the program catches
  either.
\<close>

datatype py_error = SystemExit int | Exception string

type_synonym 'a result = "py_error + 'a"

text \<open>
  The exit status of the interpreter on POSIX: 0 after a normal return, the low eight
  bits of the code after \<^verbatim>\<open>sys.exit(code)\<close>, 1 after an uncaught exception.
\<close>

fun exit_status :: "'a result \<Rightarrow> int" where
  "exit_status (Inr v) = 0"
| "exit_status (Inl (SystemExit c)) = c mod 256"
| "exit_status (Inl (Exception name)) = 1"

text \<open>
  \<^verbatim>\<open>os.fspath\<close> as \<^verbatim>\<open>os.path.join\<close> applies it to each argument: only a \<^verbatim>\<open>str\<close> passes.
\<close>

fun os_fspath :: "json \<Rightarrow> string result" where
  "os_fspath (JStr s) = Inr s"
| "os_fspath v = Inl (Exception ''TypeError'')"

text \<open>\<^verbatim>\<open>v.strip(chars)\<close>: of the values above only \<^verbatim>\<open>str\<close> has the method.\<close>

fun py_strip :: "json \<Rightarrow> string result" where
  "py_strip (JStr s) = Inr (target_name s)"
| "py_strip v = Inl (Exception ''AttributeError'')"

text \<open>
  \<^verbatim>\<open>for entry in data\<close>: the items of a list, the keys of a dict in the order of their
  first occurrence, the characters of a string (its bytes here: line 84 rejects a
  string entry whatever it holds); the other values are not iterable.
\<close>

fun py_iter :: "json \<Rightarrow> json list result" where
  "py_iter (JList xs) = Inr xs"
| "py_iter (JObj kvs) = Inr (map JStr (rev (remdups (rev (map fst kvs)))))"
| "py_iter (JStr s) = Inr (map (\<lambda>c. JStr [c]) s)"
| "py_iter v = Inl (Exception ''TypeError'')"

subsection \<open>The world: file system, console, child processes\<close>

datatype node = File string | Dir

text \<open>
  The file system maps a path, as the program spells it, to what is there. Two
  spellings of one location are two keys: the program never normalizes a path.
\<close>

type_synonym filesystem = "string \<Rightarrow> node option"

text \<open>
  One completed \<^verbatim>\<open>subprocess.run\<close>: the command, the working directory, the file
  system the child started on, and its return code.
\<close>

record call =
  call_cmd :: "string list"
  call_cwd :: "string option"
  call_fs :: filesystem
  call_rc :: int

text \<open>
  \<open>stdout\<close> and \<open>stderr\<close> hold the lines the program itself prints; a child writes to
  the console directly and is not recorded there.
\<close>

record world =
  fs :: filesystem
  stdout :: "string list"
  stderr :: "string list"
  calls :: "call list"

text \<open>
  The external tools are a parameter: given command, working directory and file
  system, \<^verbatim>\<open>subprocess.run\<close> either raises (the class name, an \<^verbatim>\<open>OSError\<close> such as
  \<^verbatim>\<open>FileNotFoundError\<close> for a missing executable or directory) or the child runs to
  its end, leaving a return code and a file system. The properties below hold for
  every such function and every file system, so the file system stands for all the
  state outside the program that a tool may read or change.
\<close>

type_synonym process = "string list \<Rightarrow> string option \<Rightarrow> filesystem \<Rightarrow> string + (int \<times> filesystem)"

text \<open>
  \<^verbatim>\<open>json.load\<close> is a parameter as well: from the content of the file to the parsed
  value, or the name of the exception raised (\<^verbatim>\<open>JSONDecodeError\<close>,
  \<^verbatim>\<open>UnicodeDecodeError\<close>).
\<close>

type_synonym loader = "string \<Rightarrow> string + json"

definition print_out :: "string \<Rightarrow> world \<Rightarrow> world" where
  "print_out line w = w\<lparr>stdout := stdout w @ [line]\<rparr>"

definition print_err :: "string \<Rightarrow> world \<Rightarrow> world" where
  "print_err line w = w\<lparr>stderr := stderr w @ [line]\<rparr>"

text \<open>
  \<^verbatim>\<open>os.path.exists(p)\<close>: whether \<^verbatim>\<open>os.stat(p)\<close> succeeds. It never does on the empty
  path.
\<close>

definition os_path_exists :: "filesystem \<Rightarrow> string \<Rightarrow> bool" where
  "os_path_exists f p = (p \<noteq> [] \<and> f p \<noteq> None)"

text \<open>
  \<^verbatim>\<open>os.makedirs\<close> is a parameter too: from the name and the file system to the file
  system with the directory and its missing ancestors created, or the name of the
  \<^verbatim>\<open>OSError\<close> raised (\<^verbatim>\<open>FileExistsError\<close>, \<^verbatim>\<open>NotADirectoryError\<close> when an ancestor is a
  regular file, \<^verbatim>\<open>PermissionError\<close>, ...). What it does on a given file system is the
  operating system's business and is not fixed here.
\<close>

type_synonym dir_maker = "string \<Rightarrow> filesystem \<Rightarrow> string + filesystem"

text \<open>
  One outcome is certain: \<^verbatim>\<open>os.makedirs('')\<close> ends in \<^verbatim>\<open>mkdir('')\<close>, which is
  \<^verbatim>\<open>FileNotFoundError\<close> everywhere.
\<close>

definition os_makedirs :: "dir_maker \<Rightarrow> string \<Rightarrow> world \<Rightarrow> unit result \<times> world" where
  "os_makedirs makedirs name w =
     (if name = [] then (Inl (Exception ''FileNotFoundError''), w)
      else case makedirs name (fs w) of
             Inl exn \<Rightarrow> (Inl (Exception exn), w)
           | Inr f' \<Rightarrow> (Inr (), w\<lparr>fs := f'\<rparr>))"

text \<open>
  \<^verbatim>\<open>open(path, 'r')\<close> followed by reading the whole file; there is no file at the empty
  path.
\<close>

definition open_read :: "filesystem \<Rightarrow> string \<Rightarrow> string result" where
  "open_read f path =
     (if path = [] then Inl (Exception ''FileNotFoundError'')
      else case f path of
             None \<Rightarrow> Inl (Exception ''FileNotFoundError'')
           | Some Dir \<Rightarrow> Inl (Exception ''IsADirectoryError'')
           | Some (File content) \<Rightarrow> Inr content)"

text \<open>Sequencing: an exception of the first step skips the rest.\<close>

definition and_then ::
  "'a result \<times> world \<Rightarrow> ('a \<Rightarrow> world \<Rightarrow> 'b result \<times> world) \<Rightarrow> 'b result \<times> world" where
  "and_then m k = (case m of (Inl e, w) \<Rightarrow> (Inl e, w) | (Inr v, w) \<Rightarrow> k v w)"

subsection \<open>\<^verbatim>\<open>run_command\<close> (lines 8 to 20)\<close>

definition run_command ::
  "process \<Rightarrow> string list \<Rightarrow> string option \<Rightarrow> world \<Rightarrow> unit result \<times> world" where
  "run_command proc cmd cwd w =
     (let w1 = print_out (''Running: '' @ str_join '' '' cmd) w
      in case proc cmd cwd (fs w1) of
           Inl exn \<Rightarrow> (Inl (Exception exn), w1)
         | Inr (rc, f') \<Rightarrow>
             (let w2 = w1\<lparr>fs := f',
                         calls := calls w1 @
                           [\<lparr>call_cmd = cmd, call_cwd = cwd, call_fs = fs w1, call_rc = rc\<rparr>]\<rparr>
              in if rc \<noteq> 0
                 then (Inl (SystemExit rc),
                       print_err (''Command failed: '' @ str_join '' '' cmd) w2)
                 else (Inr (), w2)))"

subsection \<open>\<^verbatim>\<open>ensure_mapping\<close> (lines 23 to 63)\<close>

text \<open>
  The three commands, \<open>exe\<close> standing for \<^verbatim>\<open>sys.executable\<close>.
\<close>

definition extract_cmd :: "string \<Rightarrow> string \<Rightarrow> string \<Rightarrow> string list" where
  "extract_cmd exe sbom_path risk_db =
     [exe, ''nvd_api_extractor.py'', ''--sbom'', sbom_path, ''--out'', risk_db]"

definition enrich_cmd :: "string \<Rightarrow> string \<Rightarrow> string \<Rightarrow> string list" where
  "enrich_cmd exe risk_db enriched_db =
     [exe, ''llm_api_enricher.py'', risk_db, ''--out'', enriched_db]"

definition map_cmd :: "string \<Rightarrow> string \<Rightarrow> string \<Rightarrow> string \<Rightarrow> string list" where
  "map_cmd exe code_path enriched_db threat_map =
     [exe, ''threat_api_mapper.py'', ''--code'', code_path, ''--risk'', enriched_db,
      ''--out'', threat_map]"

text \<open>Stage 1, lines 35 to 42.\<close>

definition extract_stage ::
  "process \<Rightarrow> string \<Rightarrow> string \<Rightarrow> string \<Rightarrow> string \<Rightarrow> world \<Rightarrow> unit result \<times> world" where
  "extract_stage proc exe lxc_path sbom_path risk_db w =
     (if \<not> os_path_exists (fs w) risk_db
      then run_command proc (extract_cmd exe sbom_path risk_db) (Some lxc_path) w
      else (Inr (), print_out (''Found existing risk DB: '' @ risk_db) w))"

text \<open>Stage 2, lines 45 to 52.\<close>

definition enrich_stage ::
  "process \<Rightarrow> string \<Rightarrow> string \<Rightarrow> string \<Rightarrow> string \<Rightarrow> world \<Rightarrow> unit result \<times> world" where
  "enrich_stage proc exe lxc_path risk_db enriched_db w =
     (if \<not> os_path_exists (fs w) enriched_db
      then run_command proc (enrich_cmd exe risk_db enriched_db) (Some lxc_path) w
      else (Inr (), print_out (''Found existing enriched DB: '' @ enriched_db) w))"

text \<open>Stage 3, lines 55 to 63.\<close>

definition map_stage ::
  "process \<Rightarrow> string \<Rightarrow> string \<Rightarrow> string \<Rightarrow> string \<Rightarrow> string \<Rightarrow> world
     \<Rightarrow> unit result \<times> world" where
  "map_stage proc exe lxc_path code_path enriched_db threat_map w =
     (if \<not> os_path_exists (fs w) threat_map
      then run_command proc (map_cmd exe code_path enriched_db threat_map) (Some lxc_path) w
      else (Inr (), print_out (''Found existing threat map: '' @ threat_map) w))"

definition ensure_mapping ::
  "process \<Rightarrow> string \<Rightarrow> string \<Rightarrow> string \<Rightarrow> string \<Rightarrow> string \<Rightarrow> string \<Rightarrow> string \<Rightarrow> world
     \<Rightarrow> unit result \<times> world" where
  "ensure_mapping proc exe lxc_path code_path sbom_path risk_db enriched_db threat_map w =
     and_then (extract_stage proc exe lxc_path sbom_path risk_db w) (\<lambda>_ w1.
     and_then (enrich_stage proc exe lxc_path risk_db enriched_db w1) (\<lambda>_ w2.
     map_stage proc exe lxc_path code_path enriched_db threat_map w2))"

subsection \<open>\<^verbatim>\<open>visualize_calls\<close> (lines 66 to 104)\<close>

text \<open>What lines 90 to 94 compute for one entry.\<close>

record viz_job =
  abs_file :: string
  target :: string
  out_png :: string

text \<open>
  Lines 84 to 94 for one entry: \<open>None\<close> is the \<^verbatim>\<open>continue\<close> of line 87. Only a dict
  has \<^verbatim>\<open>get\<close>; a missing key reads as \<^verbatim>\<open>None\<close>, a missing \<^verbatim>\<open>code_root\<close> as \<^verbatim>\<open>''\<close>.
\<close>

fun build_job :: "string \<Rightarrow> json \<Rightarrow> viz_job option result" where
  "build_job output_dir (JObj kvs) =
     (let file_path = dict_get kvs ''file'' JNull;
          api_pattern = dict_get kvs ''api'' JNull
      in if \<not> truthy file_path \<or> \<not> truthy api_pattern then Inr None
         else
           (case os_fspath (dict_get kvs ''code_root'' (JStr [])) of
              Inl e \<Rightarrow> Inl e
            | Inr code_root \<Rightarrow>
               (case os_fspath file_path of
                  Inl e \<Rightarrow> Inl e
                | Inr file_str \<Rightarrow>
                   (let basename = fst (os_path_splitext (os_path_basename file_str))
                    in (case py_strip api_pattern of
                          Inl e \<Rightarrow> Inl e
                        | Inr tname \<Rightarrow>
                            Inr (Some \<lparr>abs_file = os_path_join code_root file_str,
                                       target = tname,
                                       out_png = os_path_join output_dir
                                         (basename @ ''_'' @ tname @ ''.png'')\<rparr>))))))"
| "build_job output_dir v = Inl (Exception ''AttributeError'')"

text \<open>The command of lines 97 to 102.\<close>

definition viz_cmd :: "string \<Rightarrow> string \<Rightarrow> viz_job \<Rightarrow> string list" where
  "viz_cmd exe ast_path j =
     [exe, os_path_join ast_path ''astvisualizer.py'',
      ''-f'', abs_file j, ''--target'', target j, ''-o'', out_png j]"

text \<open>The loop of lines 83 to 104.\<close>

fun viz_loop ::
  "process \<Rightarrow> string \<Rightarrow> string \<Rightarrow> string \<Rightarrow> json list \<Rightarrow> world \<Rightarrow> unit result \<times> world" where
  "viz_loop proc exe ast_path output_dir [] w = (Inr (), w)"
| "viz_loop proc exe ast_path output_dir (entry # rest) w =
     (case build_job output_dir entry of
        Inl e \<Rightarrow> (Inl e, w)
      | Inr None \<Rightarrow> viz_loop proc exe ast_path output_dir rest w
      | Inr (Some j) \<Rightarrow>
          and_then (run_command proc (viz_cmd exe ast_path j) None w) (\<lambda>_ w1.
          viz_loop proc exe ast_path output_dir rest
            (print_out (''Generated diagram: '' @ out_png j) w1)))"

definition visualize_calls ::
  "process \<Rightarrow> dir_maker \<Rightarrow> loader \<Rightarrow> string \<Rightarrow> string \<Rightarrow> string \<Rightarrow> string \<Rightarrow> world
     \<Rightarrow> unit result \<times> world" where
  "visualize_calls proc makedirs json_load exe ast_path threat_map output_dir w =
     and_then (if \<not> os_path_exists (fs w) output_dir then os_makedirs makedirs output_dir w
               else (Inr (), w)) (\<lambda>_ w1.
       (case open_read (fs w1) threat_map of
          Inl e \<Rightarrow> (Inl e, w1)
        | Inr content \<Rightarrow>
           (case json_load content of
              Inl exn \<Rightarrow> (Inl (Exception exn), w1)
            | Inr data \<Rightarrow>
               (case py_iter data of
                  Inl e \<Rightarrow> (Inl e, w1)
                | Inr entries \<Rightarrow> viz_loop proc exe ast_path output_dir entries w1))))"

subsection \<open>\<^verbatim>\<open>main\<close> (lines 107 to 137), after the arguments are parsed\<close>

text \<open>The closing message of line 137, as UTF-8.\<close>

definition done_message :: string where
  "done_message =
     [
      CHR 0xEC, CHR 0x9B, CHR 0x8C, CHR 0xED, CHR 0x81, CHR 0xAC, CHR 0xED, CHR 0x94,
      CHR 0x8C, CHR 0xEB, CHR 0xA1, CHR 0x9C, CHR 0xEC, CHR 0x9A, CHR 0xB0, CHR 0x20,
      CHR 0xEC, CHR 0x99, CHR 0x84, CHR 0xEB, CHR 0xA3, CHR 0x8C, CHR 0x2E, CHR 0x20,
      CHR 0x74, CHR 0x68, CHR 0x72, CHR 0x65, CHR 0x61, CHR 0x74, CHR 0x5F, CHR 0x6D,
      CHR 0x61, CHR 0x70, CHR 0x2E, CHR 0x6A, CHR 0x73, CHR 0x6F, CHR 0x6E, CHR 0xEA,
      CHR 0xB3, CHR 0xBC, CHR 0x20, CHR 0xEC, CHR 0x8B, CHR 0x9C, CHR 0xEA, CHR 0xB0,
      CHR 0x81, CHR 0xED, CHR 0x99, CHR 0x94, CHR 0x20, CHR 0xEC, CHR 0x9D, CHR 0xB4,
      CHR 0xEB, CHR 0xAF, CHR 0xB8, CHR 0xEC, CHR 0xA7, CHR 0x80, CHR 0xEB, CHR 0xA5,
      CHR 0xBC, CHR 0x20, CHR 0xED, CHR 0x99, CHR 0x95, CHR 0xEC, CHR 0x9D, CHR 0xB8,
      CHR 0xED, CHR 0x95, CHR 0x98, CHR 0xEC, CHR 0x84, CHR 0xB8, CHR 0xEC, CHR 0x9A,
      CHR 0x94, CHR 0x2E]"

definition main ::
  "process \<Rightarrow> dir_maker \<Rightarrow> loader \<Rightarrow> string \<Rightarrow> string \<Rightarrow> string \<Rightarrow> string \<Rightarrow> string \<Rightarrow> string
     \<Rightarrow> world \<Rightarrow> unit result \<times> world" where
  "main proc makedirs json_load exe lxc astviz code sbom out_dir w =
     (let risk_db = os_path_join lxc ''risk_db.json'';
          enriched = os_path_join lxc ''risk_db_llm.json'';
          threat_map = os_path_join lxc ''threat_map.json''
      in and_then (ensure_mapping proc exe lxc code sbom risk_db enriched threat_map w) (\<lambda>_ w1.
         and_then (visualize_calls proc makedirs json_load exe astviz threat_map out_dir w1) (\<lambda>_ w2.
         (Inr (), print_out done_message w2))))"

subsection \<open>The output path as the specification writes it\<close>

text \<open>
  The specification gives the output image path as the template
  \<^verbatim>\<open><output_dir>/<base_name>_<target_identifier>.png\<close>. Read as text, that is the
  concatenation below; it is compared with what line 94 computes.
\<close>

definition out_png_as_specified :: "string \<Rightarrow> string \<Rightarrow> string \<Rightarrow> string" where
  "out_png_as_specified output_dir base_name target_identifier =
     output_dir @ ''/'' @ base_name @ ''_'' @ target_identifier @ ''.png''"

text \<open>
  A run of separators in a path counts as one separator when the path is resolved:
  \<^verbatim>\<open>out//utils_eval.png\<close> and \<^verbatim>\<open>out/utils_eval.png\<close> name the same file (on Linux a
  run at the start of a path is no exception). \<open>squeeze\<close>
  drops every separator that is followed by another one, and two paths are the same
  path when they squeeze to the same text.
\<close>

fun squeeze :: "string \<Rightarrow> string" where
  "squeeze (a # b # cs) =
     (if a = sep \<and> b = sep then squeeze (b # cs) else a # squeeze (b # cs))"
| "squeeze cs = cs"

definition same_path :: "string \<Rightarrow> string \<Rightarrow> bool" where
  "same_path p q = (squeeze p = squeeze q)"

subsection \<open>Fail-fast runs\<close>

text \<open>The code of the \<^verbatim>\<open>SystemExit\<close> a result carries, if it is one.\<close>

fun exit_code :: "'a result \<Rightarrow> int option" where
  "exit_code (Inl (SystemExit c)) = Some c"
| "exit_code (Inl (Exception name)) = None"
| "exit_code (Inr v) = None"

text \<open>
  The shape of every run from a world \<open>w\<close>: the children started since \<open>w\<close> all
  returned 0 and nothing was written to \<open>stderr\<close>, unless the run ends in
  \<^verbatim>\<open>SystemExit c\<close>; then the last child returned \<open>c \<noteq> 0\<close>, the ones before it 0, and
  the one line added to \<open>stderr\<close> names the last child's command.
\<close>

definition fail_fast :: "world \<Rightarrow> 'a result \<times> world \<Rightarrow> bool" where
  "fail_fast w m =
     (\<exists>new. calls (snd m) = calls w @ new \<and>
        (case exit_code (fst m) of
           None \<Rightarrow> list_all (\<lambda>x. call_rc x = 0) new \<and> stderr (snd m) = stderr w
         | Some c \<Rightarrow>
             new \<noteq> [] \<and> list_all (\<lambda>x. call_rc x = 0) (butlast new) \<and>
             call_rc (last new) = c \<and> c \<noteq> 0 \<and>
             stderr (snd m) =
               stderr w @ [''Command failed: '' @ str_join '' '' (call_cmd (last new))]))"

subsection \<open>Sample tools, loaders and worlds\<close>

text \<open>Nothing on disk, nothing printed, no child started.\<close>

definition empty_world :: world where
  "empty_world = \<lparr>fs = Map.empty, stdout = [], stderr = [], calls = []\<rparr>"

text \<open>All three artifacts are there; the threat map holds the text \<^verbatim>\<open>[]\<close>.\<close>

definition cached_world :: world where
  "cached_world =
     \<lparr>fs = [''lxc/risk_db.json'' \<mapsto> File ''{}'',
            ''lxc/risk_db_llm.json'' \<mapsto> File ''{}'',
            ''lxc/threat_map.json'' \<mapsto> File ''[]''],
      stdout = [], stderr = [], calls = []\<rparr>"

text \<open>Only the risk database is there, and it is an empty file.\<close>

definition stale_world :: world where
  "stale_world =
     \<lparr>fs = [''lxc/risk_db.json'' \<mapsto> File []], stdout = [], stderr = [], calls = []\<rparr>"

text \<open>
  A tool that returns 0 after writing its last argument, which in each of the four
  commands is the output path.
\<close>

definition writing_tool :: process where
  "writing_tool cmd cwd f = Inr (0, f(last cmd \<mapsto> File ''[]''))"

text \<open>A tool that returns 0 and writes nothing.\<close>

definition silent_tool :: process where
  "silent_tool cmd cwd f = Inr (0, f)"

text \<open>The extraction tool returns 3; every other tool behaves as \<open>writing_tool\<close>.\<close>

definition extractor_exits_3 :: process where
  "extractor_exits_3 cmd cwd f =
     (if take 1 (drop 1 cmd) = [''nvd_api_extractor.py''] then Inr (3, f)
      else writing_tool cmd cwd f)"

text \<open>
  A \<^verbatim>\<open>makedirs\<close> for a file system without permissions or links: the ancestors of a
  name are its proper prefixes that end before a separator; an ancestor that is a
  regular file is \<^verbatim>\<open>NotADirectoryError\<close>, a name that is there is \<^verbatim>\<open>FileExistsError\<close>,
  otherwise the name and its missing ancestors become directories.
\<close>

fun ancestors_from :: "string \<Rightarrow> string \<Rightarrow> string list" where
  "ancestors_from pre [] = []"
| "ancestors_from pre (c # cs) =
     (if c = sep \<and> pre \<noteq> [] then [pre] else []) @ ancestors_from (pre @ [c]) cs"

definition ancestors :: "string \<Rightarrow> string list" where
  "ancestors name = ancestors_from [] name"

definition plain_makedirs :: dir_maker where
  "plain_makedirs name f =
     (if list_ex (\<lambda>p. case f p of Some (File c) \<Rightarrow> True | _ \<Rightarrow> False) (ancestors name)
      then Inl ''NotADirectoryError''
      else if f name \<noteq> None then Inl ''FileExistsError''
      else Inr (\<lambda>q. if (q = name \<or> q \<in> set (ancestors name)) \<and> f q = None then Some Dir
                    else f q))"

text \<open>A loader that knows one document, the empty array.\<close>

definition brackets_loader :: loader where
  "brackets_loader content =
     (if content = ''[]'' then Inr (JList []) else Inl ''JSONDecodeError'')"

text \<open>Two entries: a complete one without \<^verbatim>\<open>code_root\<close>, and one without \<^verbatim>\<open>file\<close>.\<close>

definition utils_entry :: "(string \<times> json) list" where
  "utils_entry = [(''file'', JStr ''app/utils.py''), (''api'', JStr ''^eval$'')]"

definition no_file_entry :: "(string \<times> json) list" where
  "no_file_entry = [(''api'', JStr ''eval'')]"

section \<open>Properties\<close>

lemmas path_defs = os_path_join_def os_path_basename_def os_path_splitext_def str_rfind_def
  slice_to_def slice_from_def sep_def extsep_def os_path_isabs_def

lemmas strip_defs = target_name_def str_strip_def str_lstrip_def str_rstrip_def strip_chars_def

lemmas run_defs = main_def ensure_mapping_def extract_stage_def enrich_stage_def map_stage_def
  visualize_calls_def run_command_def print_out_def print_err_def os_path_exists_def
  os_makedirs_def open_read_def extract_cmd_def enrich_cmd_def map_cmd_def viz_cmd_def
  Let_def dict_get_def

lemmas tool_defs = writing_tool_def silent_tool_def extractor_exits_3_def brackets_loader_def
  plain_makedirs_def ancestors_def

subsection \<open>Sequencing\<close>

lemma and_then_Inl [simp]: "and_then (Inl e, w) k = (Inl e, w)"
  by (simp add: and_then_def)

lemma and_then_Inr [simp]: "and_then (Inr v, w) k = k v w"
  by (simp add: and_then_def)

lemma and_then_assoc:
  "and_then (and_then m k) h = and_then m (\<lambda>v w. and_then (k v w) h)"
  by (cases m) (auto simp: and_then_def split: sum.splits)

subsection \<open>Stripping\<close>

lemma str_rstrip_decomp:
  "m = str_rstrip m chars @ rev (takeWhile (\<lambda>c. c \<in> set chars) (rev m))"
proof -
  let ?P = "\<lambda>c. c \<in> set chars"
  have "rev m = takeWhile ?P (rev m) @ dropWhile ?P (rev m)"
    by simp
  then have "rev (rev m) = rev (takeWhile ?P (rev m) @ dropWhile ?P (rev m))"
    by (rule arg_cong)
  then show ?thesis
    unfolding str_rstrip_def by (simp only: rev_rev_ident rev_append)
qed

lemma str_strip_decomp:
  "s = takeWhile (\<lambda>c. c \<in> set chars) s @ str_strip s chars
         @ rev (takeWhile (\<lambda>c. c \<in> set chars) (rev (str_lstrip s chars)))"
proof -
  have "s = takeWhile (\<lambda>c. c \<in> set chars) s @ str_lstrip s chars"
    by (simp add: str_lstrip_def)
  also have "str_lstrip s chars = str_strip s chars
       @ rev (takeWhile (\<lambda>c. c \<in> set chars) (rev (str_lstrip s chars)))"
    unfolding str_strip_def by (rule str_rstrip_decomp)
  finally show ?thesis .
qed

lemma str_strip_last:
  assumes "str_strip s chars \<noteq> []"
  shows "last (str_strip s chars) \<notin> set chars"
proof -
  let ?P = "\<lambda>c. c \<in> set chars"
  let ?d = "dropWhile ?P (rev (str_lstrip s chars))"
  from assms have ne: "?d \<noteq> []"
    by (simp add: str_strip_def str_rstrip_def)
  then have "\<not> ?P (hd ?d)" by (rule hd_dropWhile)
  moreover from ne have "last (rev ?d) = hd ?d" by (simp add: last_rev)
  ultimately show ?thesis by (simp add: str_strip_def str_rstrip_def)
qed

lemma str_strip_hd:
  assumes "str_strip s chars \<noteq> []"
  shows "hd (str_strip s chars) \<notin> set chars"
proof -
  let ?P = "\<lambda>c. c \<in> set chars"
  let ?m = "str_lstrip s chars"
  have m: "?m = str_strip s chars @ rev (takeWhile ?P (rev ?m))"
    unfolding str_strip_def by (rule str_rstrip_decomp)
  with assms have "?m \<noteq> []" by auto
  then have "\<not> ?P (hd ?m)" unfolding str_lstrip_def by (rule hd_dropWhile)
  moreover from m assms have "hd ?m = hd (str_strip s chars)"
    by (metis hd_append2)
  ultimately show ?thesis by simp
qed

lemma str_strip_fixed:
  assumes "t \<noteq> [] \<Longrightarrow> hd t \<notin> set chars \<and> last t \<notin> set chars"
  shows "str_strip t chars = t"
proof (cases "t = []")
  case True
  then show ?thesis by (simp add: str_strip_def str_rstrip_def str_lstrip_def)
next
  case False
  with assms have h: "hd t \<notin> set chars" and l: "last t \<notin> set chars" by auto
  from False h have "str_lstrip t chars = t"
    by (cases t) (simp_all add: str_lstrip_def)
  moreover from False l have "str_rstrip t chars = t"
    by (cases "rev t") (auto simp: str_rstrip_def last_rev hd_rev)
  ultimately show ?thesis by (simp add: str_strip_def)
qed

lemma str_strip_idem: "str_strip (str_strip s chars) chars = str_strip s chars"
  by (rule str_strip_fixed) (simp add: str_strip_hd str_strip_last)

lemma str_strip_unique:
  assumes pre: "set pre \<subseteq> set chars" and suf: "set suf \<subseteq> set chars"
    and mid: "mid \<noteq> [] \<Longrightarrow> hd mid \<notin> set chars \<and> last mid \<notin> set chars"
  shows "str_strip (pre @ mid @ suf) chars = mid"
proof (cases "mid = []")
  case True
  with pre suf have "\<forall>c \<in> set (pre @ mid @ suf). c \<in> set chars" by auto
  then have "str_lstrip (pre @ mid @ suf) chars = []"
    unfolding str_lstrip_def by (simp only: dropWhile_eq_Nil_conv)
  with True show ?thesis by (simp add: str_strip_def str_rstrip_def)
next
  case False
  with mid have h: "hd mid \<notin> set chars" and l: "last mid \<notin> set chars" by auto
  from False obtain x xs where x: "mid = x # xs" by (cases mid) auto
  from False obtain y ys where y: "rev mid = y # ys" by (cases "rev mid") auto
  from y l False have yl: "y \<notin> set chars" by (metis hd_rev list.sel(1))
  from pre have "str_lstrip (pre @ mid @ suf) chars = str_lstrip (mid @ suf) chars"
    unfolding str_lstrip_def by (simp add: dropWhile_append2 subset_iff)
  also from h x have "\<dots> = mid @ suf" by (simp add: str_lstrip_def)
  finally have L: "str_lstrip (pre @ mid @ suf) chars = mid @ suf" .
  from suf have "\<And>c. c \<in> set (rev suf) \<Longrightarrow> c \<in> set chars" by auto
  then have "dropWhile (\<lambda>c. c \<in> set chars) (rev suf @ rev mid)
                   = dropWhile (\<lambda>c. c \<in> set chars) (rev mid)"
    by (rule dropWhile_append2)
  also from y yl have "\<dots> = rev mid" by simp
  finally have "str_rstrip (mid @ suf) chars = mid"
    by (simp add: str_rstrip_def)
  with L show ?thesis by (simp add: str_strip_def)
qed

subsection \<open>Pattern normalization\<close>

text \<open>
  Claim C5. For every \<^verbatim>\<open>api\<close> pattern string, the normalized target identifier is the
  string with all leading and all trailing characters from \<^verbatim>\<open>^\<close>, \<^verbatim>\<open>$\<close> and the backslash
  removed and everything between left as it was: the pattern is a prefix of such
  characters, then the identifier, then a suffix of such characters, and the identifier,
  unless empty, neither starts nor ends with one of them. The example of the
  specification is proved for both readings of its doubled backslash (one backslash
  character, as in a Python or JSON literal, and two).
\<close>

theorem target_name_boundary_strip:
  "(\<exists>pre suf. api_pattern = pre @ target_name api_pattern @ suf \<and>
      set pre \<subseteq> set strip_chars \<and> set suf \<subseteq> set strip_chars) \<and>
   (target_name api_pattern \<noteq> [] \<longrightarrow>
      hd (target_name api_pattern) \<notin> set strip_chars \<and>
      last (target_name api_pattern) \<notin> set strip_chars) \<and>
   target_name (''^os'' @ [CHR 0x5C] @ ''.system$'') = ''os'' @ [CHR 0x5C] @ ''.system'' \<and>
   target_name (''^os'' @ [CHR 0x5C, CHR 0x5C] @ ''.system$'') =
     ''os'' @ [CHR 0x5C, CHR 0x5C] @ ''.system''"
proof (intro conjI)
  let ?P = "\<lambda>c. c \<in> set strip_chars"
  let ?pre = "takeWhile ?P api_pattern"
  let ?suf = "rev (takeWhile ?P (rev (str_lstrip api_pattern strip_chars)))"
  have "api_pattern = ?pre @ target_name api_pattern @ ?suf"
    unfolding target_name_def by (rule str_strip_decomp)
  moreover have "set ?pre \<subseteq> set strip_chars"
    by (auto dest: set_takeWhileD)
  moreover have "set ?suf \<subseteq> set strip_chars"
    by (auto dest: set_takeWhileD)
  ultimately show "\<exists>pre suf. api_pattern = pre @ target_name api_pattern @ suf \<and>
      set pre \<subseteq> set strip_chars \<and> set suf \<subseteq> set strip_chars"
    by blast
next
  show "target_name api_pattern \<noteq> [] \<longrightarrow>
      hd (target_name api_pattern) \<notin> set strip_chars \<and>
      last (target_name api_pattern) \<notin> set strip_chars"
    unfolding target_name_def by (simp add: str_strip_hd str_strip_last)
next
  show "target_name (''^os'' @ [CHR 0x5C] @ ''.system$'') = ''os'' @ [CHR 0x5C] @ ''.system''"
    by (simp add: strip_defs)
next
  show "target_name (''^os'' @ [CHR 0x5C, CHR 0x5C] @ ''.system$'') =
          ''os'' @ [CHR 0x5C, CHR 0x5C] @ ''.system''"
    by (simp add: strip_defs)
qed

text \<open>
  On \<^verbatim>\<open>$^eval^x$$\<close> the boundary characters go and the caret inside stays.
\<close>

theorem target_name_boundary_strip_witness:
  "target_name ''$^eval^x$$'' = ''eval^x'' \<and>
   hd (target_name ''$^eval^x$$'') \<notin> set strip_chars \<and>
   last (target_name ''$^eval^x$$'') \<notin> set strip_chars"
  using target_name_boundary_strip [of "''$^eval^x$$''"] by (simp add: strip_defs)

text \<open>
  Claim C6. Pattern normalization is idempotent: normalizing a normalized pattern
  changes nothing.
\<close>

theorem target_name_idempotent:
  "target_name (target_name api_pattern) = target_name api_pattern"
  unfolding target_name_def by (rule str_strip_idem)

theorem target_name_idempotent_witness:
  "target_name (target_name ''^^eval$'') = target_name ''^^eval$''"
  by (rule target_name_idempotent)

subsection \<open>One entry of the threat map\<close>

lemma dict_get_absent: "k \<notin> fst ` set kvs \<Longrightarrow> dict_get kvs k dflt = dflt"
proof -
  assume "k \<notin> fst ` set kvs"
  then have "map_of (rev kvs) k = None"
    by (simp add: map_of_eq_None_iff)
  then show ?thesis by (simp add: dict_get_def)
qed

lemma build_job_falsy:
  "\<not> truthy (dict_get kvs ''file'' JNull) \<or> \<not> truthy (dict_get kvs ''api'' JNull)
     \<Longrightarrow> build_job output_dir (JObj kvs) = Inr None"
  by (auto simp: Let_def)

lemma viz_loop_append:
  "viz_loop proc exe ast_path output_dir (xs @ ys) w =
     and_then (viz_loop proc exe ast_path output_dir xs w)
       (\<lambda>_ w1. viz_loop proc exe ast_path output_dir ys w1)"
proof (induction xs arbitrary: w)
  case Nil
  show ?case by simp
next
  case (Cons x xs)
  show ?case
  proof (cases "build_job output_dir x")
    case (Inl e)
    then show ?thesis by simp
  next
    case (Inr jo)
    show ?thesis
    proof (cases jo)
      case None
      with Inr Cons.IH show ?thesis by simp
    next
      case (Some j)
      with Inr Cons.IH show ?thesis by (simp add: and_then_assoc)
    qed
  qed
qed

lemma build_job_valid:
  assumes "dict_get kvs ''file'' JNull = JStr file_path" "file_path \<noteq> []"
    and "dict_get kvs ''api'' JNull = JStr api_pattern" "api_pattern \<noteq> []"
    and "dict_get kvs ''code_root'' (JStr []) = JStr code_root"
  shows "build_job output_dir (JObj kvs) =
           Inr (Some \<lparr>abs_file = os_path_join code_root file_path,
                      target = target_name api_pattern,
                      out_png = os_path_join output_dir
                        (fst (os_path_splitext (os_path_basename file_path)) @ ''_'' @
                         target_name api_pattern @ ''.png'')\<rparr>)"
  using assms by (simp add: Let_def)

lemma os_path_join_relative:
  assumes "b \<noteq> []" "hd b \<noteq> CHR ''/''"
  shows "os_path_join a b = (if a = [] \<or> last a = CHR ''/'' then a @ b else a @ ''/'' @ b)"
  using assms by (simp add: os_path_join_def sep_def)

lemma os_path_basename_eq:
  "os_path_basename p = rev (takeWhile (\<lambda>x. x \<noteq> sep) (rev p))"
proof (cases "sep \<in> set p")
  case True
  let ?tw = "takeWhile (\<lambda>x. x \<noteq> sep) (rev p)"
  have le: "length ?tw \<le> length p"
    using length_takeWhile_le [of "\<lambda>x. x \<noteq> sep" "rev p"] by simp
  then have "nat (str_rfind p sep + 1) = length p - length ?tw"
    using True by (simp add: str_rfind_def)
  then have "os_path_basename p = drop (length p - length ?tw) p"
    by (simp add: os_path_basename_def slice_from_def)
  also have "\<dots> = rev (take (length ?tw) (rev p))"
    by (simp add: take_rev)
  also have "take (length ?tw) (rev p) = ?tw"
    by (rule takeWhile_eq_take [symmetric])
  finally show ?thesis .
next
  case False
  then have "\<forall>x \<in> set (rev p). x \<noteq> sep" by auto
  then have "takeWhile (\<lambda>x. x \<noteq> sep) (rev p) = rev p"
    by (simp only: takeWhile_eq_all_conv)
  then have "rev (takeWhile (\<lambda>x. x \<noteq> sep) (rev p)) = p"
    by (simp only: rev_rev_ident)
  moreover from False have "os_path_basename p = p"
    by (simp add: os_path_basename_def slice_from_def str_rfind_def)
  ultimately show ?thesis by (rule ssubst)
qed

lemma sep_notin_basename: "sep \<notin> set (os_path_basename p)"
proof
  assume "sep \<in> set (os_path_basename p)"
  then have "sep \<in> set (takeWhile (\<lambda>x. x \<noteq> sep) (rev p))"
    by (simp add: os_path_basename_eq)
  then show False by (auto dest: set_takeWhileD)
qed

lemma set_splitext_root: "set (fst (os_path_splitext q)) \<subseteq> set q"
  by (auto simp: os_path_splitext_def Let_def slice_to_def dest: in_set_takeD)

lemma sep_notin_stem: "sep \<notin> set (fst (os_path_splitext (os_path_basename p)))"
  using set_splitext_root [of "os_path_basename p"] sep_notin_basename [of p] by auto

subsection \<open>Entry filtering\<close>

text \<open>
  Claim C4. For every entry (an object) of the threat map whose \<^verbatim>\<open>file\<close> field or \<^verbatim>\<open>api\<close>
  field is missing or is the empty string, the loop builds no visualization job for it
  and goes on with the remaining entries: wherever the entry stands in the list, the
  whole loop behaves exactly as it does on the list without that entry, so the entry
  starts no child process and raises nothing.
\<close>

theorem invalid_entry_skipped:
  assumes "k = ''file'' \<or> k = ''api''"
    and "k \<notin> fst ` set kvs \<or> dict_get kvs k JNull = JStr []"
  shows "build_job output_dir (JObj kvs) = Inr None \<and>
         viz_loop proc exe ast_path output_dir (before @ JObj kvs # after) w =
           viz_loop proc exe ast_path output_dir (before @ after) w"
proof -
  from assms(2) have "\<not> truthy (dict_get kvs k JNull)"
    by (auto simp: dict_get_absent)
  with assms(1) have skip: "build_job output_dir (JObj kvs) = Inr None"
    by (intro build_job_falsy) auto
  then have "viz_loop proc exe ast_path output_dir (JObj kvs # after) w1 =
               viz_loop proc exe ast_path output_dir after w1" for w1
    by simp
  then have "viz_loop proc exe ast_path output_dir (before @ JObj kvs # after) w =
               viz_loop proc exe ast_path output_dir (before @ after) w"
    by (simp add: viz_loop_append)
  with skip show ?thesis by simp
qed

text \<open>
  An entry without \<^verbatim>\<open>file\<close> between two complete entries is passed over, and so is an
  entry whose \<^verbatim>\<open>api\<close> is the empty string.
\<close>

theorem invalid_entry_skipped_witness:
  "viz_loop writing_tool ''python3'' ''ast'' ''output''
     [JObj utils_entry, JObj no_file_entry, JObj utils_entry] empty_world =
   viz_loop writing_tool ''python3'' ''ast'' ''output''
     [JObj utils_entry, JObj utils_entry] empty_world \<and>
   build_job ''output'' (JObj [(''file'', JStr ''app/utils.py''), (''api'', JStr [])]) = Inr None"
  using invalid_entry_skipped [of "''file''" no_file_entry "''output''" writing_tool "''python3''"
      "''ast''" "[JObj utils_entry]" "[JObj utils_entry]" empty_world]
    invalid_entry_skipped [of "''api''" "[(''file'', JStr ''app/utils.py''), (''api'', JStr [])]"
      "''output''" writing_tool "''python3''" "''ast''" "[]" "[]" empty_world]
  by (simp add: no_file_entry_def dict_get_def)

subsection \<open>Output naming\<close>

lemma squeeze_doubled: "squeeze (xs @ sep # sep # ys) = squeeze (xs @ sep # ys)"
proof (induction xs)
  case Nil
  show ?case by simp
next
  case (Cons x xs)
  show ?case
  proof (cases xs)
    case Nil
    then show ?thesis by simp
  next
    case (Cons y zs)
    with Cons.IH show ?thesis by auto
  qed
qed

lemma same_path_trailing_sep:
  assumes "d \<noteq> []" "last d = sep"
  shows "same_path (d @ name) (d @ sep # name)"
proof -
  from assms have d: "d = butlast d @ [sep]"
    by (metis append_butlast_last_id)
  have "squeeze ((butlast d @ [sep]) @ sep # name) = squeeze ((butlast d @ [sep]) @ name)"
    using squeeze_doubled [of "butlast d" name] by simp
  with d show ?thesis by (simp add: same_path_def)
qed

lemma visualize_calls_empty_dir:
  "visualize_calls proc makedirs json_load exe ast_path threat_map [] w =
     (Inl (Exception ''FileNotFoundError''), w)"
  by (simp add: visualize_calls_def os_path_exists_def os_makedirs_def)

text \<open>
  Claim C7. For every valid threat entry (\<^verbatim>\<open>file\<close> and \<^verbatim>\<open>api\<close> non-empty strings,
  \<^verbatim>\<open>code_root\<close> absent or a string) the output image path computed on line 94 is
  \<^verbatim>\<open><output_dir>/<base_name>_<target_identifier>.png\<close>, the base name being the file name
  of \<^verbatim>\<open>file\<close> without its extension: it is that very text when the output directory
  is written without a trailing separator, and the same path when it is written with
  one (\<^verbatim>\<open>os.path.join\<close> then adds no second separator). An empty output directory never
  gets as far as line 94: \<^verbatim>\<open>visualize_calls\<close> raises before it reads the threat map.
  The path depends on the entry and the output directory alone: whatever entries come
  before and after it in the list, the loop runs the same command for this entry.
\<close>

theorem out_png_path:
  assumes "dict_get kvs ''file'' JNull = JStr file_path" "file_path \<noteq> []"
    and "dict_get kvs ''api'' JNull = JStr api_pattern" "api_pattern \<noteq> []"
    and "dict_get kvs ''code_root'' (JStr []) = JStr code_root"
  shows "(\<exists>j. build_job output_dir (JObj kvs) = Inr (Some j) \<and>
           (output_dir \<noteq> [] \<longrightarrow>
              same_path (out_png j)
                (out_png_as_specified output_dir
                   (fst (os_path_splitext (os_path_basename file_path)))
                   (target_name api_pattern))) \<and>
           (output_dir \<noteq> [] \<and> last output_dir \<noteq> CHR ''/'' \<longrightarrow>
              out_png j =
                out_png_as_specified output_dir
                  (fst (os_path_splitext (os_path_basename file_path)))
                  (target_name api_pattern)) \<and>
           viz_loop proc exe ast_path output_dir (before @ JObj kvs # after) w =
             and_then (viz_loop proc exe ast_path output_dir before w) (\<lambda>_ w1.
             and_then (run_command proc (viz_cmd exe ast_path j) None w1) (\<lambda>_ w2.
             viz_loop proc exe ast_path output_dir after
               (print_out (''Generated diagram: '' @ out_png j) w2)))) \<and>
         visualize_calls proc makedirs json_load exe ast_path threat_map [] w =
           (Inl (Exception ''FileNotFoundError''), w)"
proof -
  let ?name = "fst (os_path_splitext (os_path_basename file_path)) @ ''_'' @
                 target_name api_pattern @ ''.png''"
  let ?spec = "out_png_as_specified output_dir
                 (fst (os_path_splitext (os_path_basename file_path))) (target_name api_pattern)"
  let ?j = "\<lparr>abs_file = os_path_join code_root file_path,
             target = target_name api_pattern,
             out_png = os_path_join output_dir ?name\<rparr>"
  have job: "build_job output_dir (JObj kvs) = Inr (Some ?j)"
    using assms by (rule build_job_valid)
  have spec: "?spec = output_dir @ sep # ?name"
    by (simp add: out_png_as_specified_def sep_def)
  have "?name \<noteq> []" by simp
  moreover have "hd ?name \<noteq> CHR ''/''"
  proof (cases "fst (os_path_splitext (os_path_basename file_path))")
    case Nil
    then show ?thesis by simp
  next
    case (Cons c cs)
    with sep_notin_stem [of file_path] show ?thesis by (auto simp: sep_def)
  qed
  ultimately have joined: "os_path_join output_dir ?name =
      (if output_dir = [] \<or> last output_dir = CHR ''/'' then output_dir @ ?name
       else output_dir @ ''/'' @ ?name)"
    by (rule os_path_join_relative)
  have literal: "out_png ?j = ?spec" if "output_dir \<noteq> []" "last output_dir \<noteq> CHR ''/''"
    using that joined spec by (simp add: sep_def)
  have same: "same_path (out_png ?j) ?spec" if ne: "output_dir \<noteq> []"
  proof (cases "last output_dir = CHR ''/''")
    case True
    with ne joined have "out_png ?j = output_dir @ ?name" by simp
    moreover from ne True have "same_path (output_dir @ ?name) (output_dir @ sep # ?name)"
      by (intro same_path_trailing_sep) (simp_all add: sep_def)
    ultimately show ?thesis using spec by simp
  next
    case False
    with ne literal show ?thesis by (simp add: same_path_def)
  qed
  have loop: "viz_loop proc exe ast_path output_dir (before @ JObj kvs # after) w =
             and_then (viz_loop proc exe ast_path output_dir before w) (\<lambda>_ w1.
             and_then (run_command proc (viz_cmd exe ast_path ?j) None w1) (\<lambda>_ w2.
             viz_loop proc exe ast_path output_dir after
               (print_out (''Generated diagram: '' @ out_png ?j) w2)))"
    unfolding viz_loop_append viz_loop.simps job by simp
  from job same literal loop have
    "\<exists>j. build_job output_dir (JObj kvs) = Inr (Some j) \<and>
           (output_dir \<noteq> [] \<longrightarrow> same_path (out_png j) ?spec) \<and>
           (output_dir \<noteq> [] \<and> last output_dir \<noteq> CHR ''/'' \<longrightarrow> out_png j = ?spec) \<and>
           viz_loop proc exe ast_path output_dir (before @ JObj kvs # after) w =
             and_then (viz_loop proc exe ast_path output_dir before w) (\<lambda>_ w1.
             and_then (run_command proc (viz_cmd exe ast_path j) None w1) (\<lambda>_ w2.
             viz_loop proc exe ast_path output_dir after
               (print_out (''Generated diagram: '' @ out_png j) w2)))"
    by blast
  with visualize_calls_empty_dir show ?thesis by blast
qed

text \<open>
  Source file \<^verbatim>\<open>app/utils.py\<close> with pattern \<^verbatim>\<open>^eval$\<close> gives \<^verbatim>\<open>output/utils_eval.png\<close>
  in the directory \<^verbatim>\<open>output\<close>, which is the text of the template; in \<^verbatim>\<open>out/\<close> it gives
  \<^verbatim>\<open>out/utils_eval.png\<close>, the same path as the template's \<^verbatim>\<open>out//utils_eval.png\<close>.
\<close>

theorem out_png_path_witness:
  "build_job ''output'' (JObj utils_entry) =
     Inr (Some \<lparr>abs_file = ''app/utils.py'', target = ''eval'',
                out_png = ''output/utils_eval.png''\<rparr>) \<and>
   out_png_as_specified ''output'' ''utils'' ''eval'' = ''output/utils_eval.png'' \<and>
   build_job ''out/'' (JObj utils_entry) =
     Inr (Some \<lparr>abs_file = ''app/utils.py'', target = ''eval'',
                out_png = ''out/utils_eval.png''\<rparr>) \<and>
   same_path ''out/utils_eval.png'' (out_png_as_specified ''out/'' ''utils'' ''eval'')"
  using out_png_path [of utils_entry "''app/utils.py''" "''^eval$''" "[]" "''output''"
      writing_tool "''python3''" "''ast''" "[]" "[]" empty_world]
    out_png_path [of utils_entry "''app/utils.py''" "''^eval$''" "[]" "''out/''"
      writing_tool "''python3''" "''ast''" "[]" "[]" empty_world]
  by (simp add: utils_entry_def dict_get_def path_defs strip_defs out_png_as_specified_def
      same_path_def)

subsection \<open>Source path resolution\<close>

text \<open>
  Claim C8. For every valid threat entry the source path passed to the visualization
  tool (the argument after \<^verbatim>\<open>-f\<close>) is \<^verbatim>\<open>os.path.join(code_root, file)\<close>, with
  \<^verbatim>\<open>code_root\<close> read as the empty string when absent. The comment of line 89 and the
  name \<^verbatim>\<open>abs_file\<close> call it an absolute path; it is one exactly when \<^verbatim>\<open>code_root\<close> or
  \<^verbatim>\<open>file\<close> is absolute.
\<close>

theorem abs_file_absolute_iff:
  assumes "dict_get kvs ''file'' JNull = JStr file_path" "file_path \<noteq> []"
    and "dict_get kvs ''api'' JNull = JStr api_pattern" "api_pattern \<noteq> []"
    and "dict_get kvs ''code_root'' (JStr []) = JStr code_root"
  shows "\<exists>j. build_job output_dir (JObj kvs) = Inr (Some j) \<and>
           abs_file j = os_path_join code_root file_path \<and>
           viz_cmd exe ast_path j ! 3 = abs_file j \<and>
           os_path_isabs (abs_file j) = (os_path_isabs code_root \<or> os_path_isabs file_path)"
proof -
  have "os_path_isabs (os_path_join code_root file_path)
          = (os_path_isabs code_root \<or> os_path_isabs file_path)"
    using \<open>file_path \<noteq> []\<close>
    by (cases code_root) (auto simp: os_path_isabs_def os_path_join_def)
  with build_job_valid [OF assms, of output_dir] show ?thesis
    by (simp add: viz_cmd_def)
qed

text \<open>
  With no \<^verbatim>\<open>code_root\<close> and the relative \<^verbatim>\<open>file\<close> \<^verbatim>\<open>app/utils.py\<close>, the path passed on is
  \<^verbatim>\<open>app/utils.py\<close>, which is not absolute.
\<close>

theorem abs_file_relative_witness:
  "build_job ''output'' (JObj [(''file'', JStr ''app/utils.py''), (''api'', JStr ''eval'')]) =
     Inr (Some \<lparr>abs_file = ''app/utils.py'', target = ''eval'',
                out_png = ''output/utils_eval.png''\<rparr>) \<and>
   os_path_isabs ''app/utils.py'' = False"
  using abs_file_absolute_iff [of "[(''file'', JStr ''app/utils.py''), (''api'', JStr ''eval'')]"
      "''app/utils.py''" "''eval''" "[]" "''output''" "''python3''" "''ast''"]
  by (simp add: dict_get_def path_defs strip_defs)

text \<open>
  Claim C9. For every threat entry whose \<^verbatim>\<open>file\<close> is an absolute path (with a non-empty
  string \<^verbatim>\<open>api\<close>, and \<^verbatim>\<open>code_root\<close> absent or any string), the resolved source path
  is \<^verbatim>\<open>file\<close> itself, whatever \<^verbatim>\<open>code_root\<close> is.
\<close>

theorem absolute_file_ignores_code_root:
  assumes "dict_get kvs ''file'' JNull = JStr file_path" "os_path_isabs file_path"
    and "dict_get kvs ''api'' JNull = JStr api_pattern" "api_pattern \<noteq> []"
    and "dict_get kvs ''code_root'' (JStr []) = JStr code_root"
  shows "os_path_join code_root file_path = file_path \<and>
         (\<exists>j. build_job output_dir (JObj kvs) = Inr (Some j) \<and> abs_file j = file_path \<and>
              viz_cmd exe ast_path j ! 3 = file_path)"
proof -
  from assms(2) have ne: "file_path \<noteq> []" and j: "os_path_join code_root file_path = file_path"
    by (auto simp: os_path_isabs_def os_path_join_def)
  from build_job_valid [OF assms(1) ne assms(3-5), of output_dir] j show ?thesis
    by (simp add: viz_cmd_def)
qed

theorem absolute_file_ignores_code_root_witness:
  "build_job ''output''
     (JObj [(''file'', JStr ''/srv/app/utils.py''), (''api'', JStr ''eval''),
            (''code_root'', JStr ''/home/user/project'')]) =
     Inr (Some \<lparr>abs_file = ''/srv/app/utils.py'', target = ''eval'',
                out_png = ''output/utils_eval.png''\<rparr>)"
  using absolute_file_ignores_code_root [of "[(''file'', JStr ''/srv/app/utils.py''), (''api'', JStr ''eval''),
            (''code_root'', JStr ''/home/user/project'')]"
      "''/srv/app/utils.py''" "''eval''" "''/home/user/project''" "''output''" "''python3''" "''ast''"]
  by (simp add: dict_get_def path_defs strip_defs)

subsection \<open>Every run is fail-fast\<close>

lemma fail_fast_return: "fail_fast w (Inr v, w)"
  by (simp add: fail_fast_def)

lemma fail_fast_exception: "fail_fast w (Inl (Exception name), w)"
  by (simp add: fail_fast_def)

lemma fail_fast_print_out: "fail_fast (print_out line w) m = fail_fast w m"
  by (simp add: fail_fast_def print_out_def cong: option.case_cong)

lemma fail_fast_return_print: "fail_fast w (Inr v, print_out line w)"
  by (simp add: fail_fast_def print_out_def)

lemma fail_fast_run_command: "fail_fast w (run_command proc cmd cwd w)"
proof (cases "proc cmd cwd (fs w)")
  case (Inl exn)
  then show ?thesis
    by (simp add: run_command_def fail_fast_def print_out_def)
next
  case (Inr p)
  then obtain rc f' where "proc cmd cwd (fs w) = Inr (rc, f')" by (cases p) auto
  then show ?thesis
    by (simp add: run_command_def fail_fast_def print_out_def print_err_def Let_def)
qed

lemma fail_fast_and_then:
  assumes m: "fail_fast w m" and k: "\<And>v w1. fail_fast w1 (k v w1)"
  shows "fail_fast w (and_then m k)"
proof (cases m)
  case (Pair r w1)
  show ?thesis
  proof (cases r)
    case (Inl e)
    with Pair m show ?thesis
      by (cases e) (simp_all add: fail_fast_def)
  next
    case (Inr v)
    with Pair m obtain new1 where n1: "calls w1 = calls w @ new1"
      "list_all (\<lambda>x. call_rc x = 0) new1" "stderr w1 = stderr w"
      by (auto simp: fail_fast_def)
    from k [of w1 v] obtain new2 where n2: "calls (snd (k v w1)) = calls w1 @ new2"
      and c2: "case exit_code (fst (k v w1)) of
           None \<Rightarrow> list_all (\<lambda>x. call_rc x = 0) new2 \<and> stderr (snd (k v w1)) = stderr w1
         | Some c \<Rightarrow>
             new2 \<noteq> [] \<and> list_all (\<lambda>x. call_rc x = 0) (butlast new2) \<and>
             call_rc (last new2) = c \<and> c \<noteq> 0 \<and>
             stderr (snd (k v w1)) =
               stderr w1 @ [''Command failed: '' @ str_join '' '' (call_cmd (last new2))]"
      unfolding fail_fast_def by blast
    have "fail_fast w (k v w1)"
      unfolding fail_fast_def
    proof (intro exI conjI)
      show "calls (snd (k v w1)) = calls w @ (new1 @ new2)"
        using n1 n2 by simp
      show "case exit_code (fst (k v w1)) of
           None \<Rightarrow> list_all (\<lambda>x. call_rc x = 0) (new1 @ new2) \<and> stderr (snd (k v w1)) = stderr w
         | Some c \<Rightarrow>
             new1 @ new2 \<noteq> [] \<and> list_all (\<lambda>x. call_rc x = 0) (butlast (new1 @ new2)) \<and>
             call_rc (last (new1 @ new2)) = c \<and> c \<noteq> 0 \<and>
             stderr (snd (k v w1)) =
               stderr w @ [''Command failed: '' @ str_join '' '' (call_cmd (last (new1 @ new2)))]"
        using c2 n1 by (auto split: option.splits simp: butlast_append)
    qed
    with Pair Inr show ?thesis by simp
  qed
qed

lemma fail_fast_extract_stage:
  "fail_fast w (extract_stage proc exe lxc_path sbom_path risk_db w)"
  by (simp add: extract_stage_def fail_fast_run_command fail_fast_return_print)

lemma fail_fast_enrich_stage:
  "fail_fast w (enrich_stage proc exe lxc_path risk_db enriched_db w)"
  by (simp add: enrich_stage_def fail_fast_run_command fail_fast_return_print)

lemma fail_fast_map_stage:
  "fail_fast w (map_stage proc exe lxc_path code_path enriched_db threat_map w)"
  by (simp add: map_stage_def fail_fast_run_command fail_fast_return_print)

lemma fail_fast_ensure_mapping:
  "fail_fast w (ensure_mapping proc exe lxc_path code_path sbom_path risk_db enriched_db threat_map w)"
  unfolding ensure_mapping_def
  by (intro fail_fast_and_then fail_fast_extract_stage fail_fast_enrich_stage fail_fast_map_stage)

lemma os_fspath_Inl: "os_fspath v = Inl e \<Longrightarrow> e = Exception ''TypeError''"
  by (cases v) simp_all

lemma py_strip_Inl: "py_strip v = Inl e \<Longrightarrow> e = Exception ''AttributeError''"
  by (cases v) simp_all

lemma build_job_Inl:
  assumes "build_job output_dir entry = Inl e"
  shows "e = Exception ''TypeError'' \<or> e = Exception ''AttributeError''"
proof (cases entry)
  case (JObj kvs)
  with assms show ?thesis
    by (auto simp: Let_def split: if_splits sum.splits dest: os_fspath_Inl py_strip_Inl)
qed (use assms in simp_all)

lemma fail_fast_viz_loop:
  "fail_fast w (viz_loop proc exe ast_path output_dir entries w)"
proof (induction entries arbitrary: w)
  case Nil
  show ?case by (simp add: fail_fast_return)
next
  case (Cons entry rest)
  show ?case
  proof (cases "build_job output_dir entry")
    case (Inl e)
    with build_job_Inl [of output_dir entry e] show ?thesis
      by (auto simp: fail_fast_exception)
  next
    case (Inr jo)
    show ?thesis
    proof (cases jo)
      case None
      with Inr Cons.IH show ?thesis by simp
    next
      case (Some j)
      have "fail_fast w (and_then (run_command proc (viz_cmd exe ast_path j) None w) (\<lambda>_ w1.
          viz_loop proc exe ast_path output_dir rest
            (print_out (''Generated diagram: '' @ out_png j) w1)))"
      proof (rule fail_fast_and_then [OF fail_fast_run_command])
        fix v :: unit and w1
        from Cons.IH [of "print_out (''Generated diagram: '' @ out_png j) w1"]
        show "fail_fast w1 (viz_loop proc exe ast_path output_dir rest
            (print_out (''Generated diagram: '' @ out_png j) w1))"
          by (simp add: fail_fast_print_out)
      qed
      with Inr Some show ?thesis by simp
    qed
  qed
qed

lemma fail_fast_os_makedirs: "fail_fast w (os_makedirs makedirs name w)"
  by (simp add: os_makedirs_def fail_fast_def split: sum.splits)

lemma open_read_Inl: "open_read f path = Inl e \<Longrightarrow> \<exists>name. e = Exception name"
  by (auto simp: open_read_def split: if_splits option.splits node.splits)

lemma py_iter_Inl: "py_iter v = Inl e \<Longrightarrow> e = Exception ''TypeError''"
  by (cases v) simp_all

lemma fail_fast_visualize_calls:
  "fail_fast w (visualize_calls proc makedirs json_load exe ast_path threat_map output_dir w)"
  unfolding visualize_calls_def
proof (rule fail_fast_and_then)
  show "fail_fast w (if \<not> os_path_exists (fs w) output_dir then os_makedirs makedirs output_dir w
               else (Inr (), w))"
    by (simp add: fail_fast_os_makedirs fail_fast_return)
next
  fix v :: unit and w1
  show "fail_fast w1 (case open_read (fs w1) threat_map of
          Inl e \<Rightarrow> (Inl e, w1)
        | Inr content \<Rightarrow>
           (case json_load content of
              Inl exn \<Rightarrow> (Inl (Exception exn), w1)
            | Inr data \<Rightarrow>
               (case py_iter data of
                  Inl e \<Rightarrow> (Inl e, w1)
                | Inr entries \<Rightarrow> viz_loop proc exe ast_path output_dir entries w1)))"
    by (auto split: sum.splits dest!: open_read_Inl py_iter_Inl
        simp: fail_fast_exception fail_fast_viz_loop)
qed

lemma fail_fast_main:
  "fail_fast w (main proc makedirs json_load exe lxc astviz code sbom out_dir w)"
  unfolding main_def Let_def
  by (intro fail_fast_and_then fail_fast_ensure_mapping fail_fast_visualize_calls
      fail_fast_return_print)

lemma fail_fast_first_failure:
  assumes ff: "fail_fast w (r, w')"
    and split: "calls w' = calls w @ pre @ c # post"
    and rc: "call_rc c \<noteq> 0"
  shows "post = [] \<and> r = Inl (SystemExit (call_rc c)) \<and>
         stderr w' = stderr w @ [''Command failed: '' @ str_join '' '' (call_cmd c)] \<and>
         list_all (\<lambda>x. call_rc x = 0) pre"
proof -
  from ff split obtain
    inv: "case exit_code r of
           None \<Rightarrow> list_all (\<lambda>x. call_rc x = 0) (pre @ c # post) \<and> stderr w' = stderr w
         | Some k \<Rightarrow>
             list_all (\<lambda>x. call_rc x = 0) (butlast (pre @ c # post)) \<and>
             call_rc (last (pre @ c # post)) = k \<and> k \<noteq> 0 \<and>
             stderr w' =
               stderr w @ [''Command failed: '' @ str_join '' '' (call_cmd (last (pre @ c # post)))]"
    by (auto simp: fail_fast_def split: option.splits)
  from inv rc obtain k where k: "exit_code r = Some k"
    by (cases "exit_code r") auto
  then have r: "r = Inl (SystemExit k)"
    by (cases r rule: exit_code.cases) auto
  have post: "post = []"
  proof (rule ccontr)
    assume "post \<noteq> []"
    then have "butlast (pre @ c # post) = pre @ c # butlast post"
      by (simp add: butlast_append)
    with inv k rc show False by simp
  qed
  with inv k r show ?thesis by (simp add: butlast_append)
qed

subsection \<open>Fatal propagation\<close>

text \<open>
  Claim C1. In every run of the workflow, if a child process started during the run
  returns a non-zero code \<open>c\<close>, then it is the last child the run starts, the run ends
  in \<^verbatim>\<open>sys.exit(c)\<close>, and the one line the run adds to the error stream is
  \<^verbatim>\<open>Command failed:\<close> followed by that child's command. For an exit status in 1..255
  the interpreter's own exit status is \<open>c\<close>.
\<close>

theorem failure_is_fatal:
  assumes run: "main proc makedirs json_load exe lxc astviz code sbom out_dir w = (r, w')"
    and split: "calls w' = calls w @ pre @ c # post"
    and rc: "call_rc c \<noteq> 0"
  shows "post = [] \<and> r = Inl (SystemExit (call_rc c)) \<and>
         stderr w' = stderr w @ [''Command failed: '' @ str_join '' '' (call_cmd c)] \<and>
         (0 < call_rc c \<and> call_rc c < 256 \<longrightarrow> exit_status r = call_rc c)"
proof -
  have "fail_fast w (r, w')"
    using fail_fast_main [of w proc makedirs json_load exe lxc astviz code sbom out_dir] run by simp
  from fail_fast_first_failure [OF this split rc] show ?thesis by auto
qed

text \<open>
  The extraction tool returns 3: the workflow exits with 3, the extraction command is
  the only one run, and the diagnostic names it.
\<close>

theorem failure_is_fatal_witness:
  "fst (main extractor_exits_3 plain_makedirs brackets_loader ''python3'' ''lxc'' ''ast'' ''code'' ''sbom.json''
          ''output'' empty_world) = Inl (SystemExit 3) \<and>
   exit_status (fst (main extractor_exits_3 plain_makedirs brackets_loader ''python3'' ''lxc'' ''ast'' ''code''
          ''sbom.json'' ''output'' empty_world)) = 3 \<and>
   map call_cmd (calls (snd (main extractor_exits_3 plain_makedirs brackets_loader ''python3'' ''lxc'' ''ast''
          ''code'' ''sbom.json'' ''output'' empty_world))) =
     [[''python3'', ''nvd_api_extractor.py'', ''--sbom'', ''sbom.json'', ''--out'',
       ''lxc/risk_db.json'']] \<and>
   stderr (snd (main extractor_exits_3 plain_makedirs brackets_loader ''python3'' ''lxc'' ''ast'' ''code''
          ''sbom.json'' ''output'' empty_world)) =
     [''Command failed: python3 nvd_api_extractor.py --sbom sbom.json --out lxc/risk_db.json'']"
proof -
  let ?c = "\<lparr>call_cmd = [''python3'', ''nvd_api_extractor.py'', ''--sbom'', ''sbom.json'',
                         ''--out'', ''lxc/risk_db.json''],
             call_cwd = Some ''lxc'', call_fs = Map.empty, call_rc = 3\<rparr>"
  let ?w' = "\<lparr>fs = Map.empty,
              stdout = [''Running: python3 nvd_api_extractor.py --sbom sbom.json --out lxc/risk_db.json''],
              stderr = [''Command failed: python3 nvd_api_extractor.py --sbom sbom.json --out lxc/risk_db.json''],
              calls = [?c]\<rparr>"
  have run: "main extractor_exits_3 plain_makedirs brackets_loader ''python3'' ''lxc'' ''ast'' ''code'' ''sbom.json''
          ''output'' empty_world = (Inl (SystemExit 3), ?w')"
    by (simp add: run_defs path_defs tool_defs empty_world_def)
  have split: "calls ?w' = calls empty_world @ [] @ ?c # []"
    by (simp add: empty_world_def)
  have rc: "call_rc ?c \<noteq> 0" by simp
  from failure_is_fatal [OF run split rc] run show ?thesis by simp
qed

subsection \<open>Reuse of existing artifacts\<close>

text \<open>
  Claim C2. For each of the three stages, if something exists at the stage's output
  path when the stage is evaluated, the stage returns normally in a world that differs
  from the one before only by one more line on standard output, the message naming the
  reused path: no child is started and the file system, the artifact with it, is as it
  was.
\<close>

theorem existing_artifact_reused:
  "(os_path_exists (fs w) risk_db \<longrightarrow>
      extract_stage proc exe lxc_path sbom_path risk_db w =
        (Inr (), w\<lparr>stdout := stdout w @ [''Found existing risk DB: '' @ risk_db]\<rparr>)) \<and>
   (os_path_exists (fs w) enriched_db \<longrightarrow>
      enrich_stage proc exe lxc_path risk_db enriched_db w =
        (Inr (), w\<lparr>stdout := stdout w @ [''Found existing enriched DB: '' @ enriched_db]\<rparr>)) \<and>
   (os_path_exists (fs w) threat_map \<longrightarrow>
      map_stage proc exe lxc_path code_path enriched_db threat_map w =
        (Inr (), w\<lparr>stdout := stdout w @ [''Found existing threat map: '' @ threat_map]\<rparr>))"
  by (simp add: extract_stage_def enrich_stage_def map_stage_def print_out_def)

theorem existing_artifact_reused_witness:
  "extract_stage writing_tool ''python3'' ''lxc'' ''sbom.json'' ''lxc/risk_db.json'' cached_world =
     (Inr (), cached_world\<lparr>stdout := [''Found existing risk DB: lxc/risk_db.json'']\<rparr>) \<and>
   enrich_stage writing_tool ''python3'' ''lxc'' ''lxc/risk_db.json'' ''lxc/risk_db_llm.json''
       cached_world =
     (Inr (), cached_world\<lparr>stdout := [''Found existing enriched DB: lxc/risk_db_llm.json'']\<rparr>) \<and>
   map_stage writing_tool ''python3'' ''lxc'' ''code'' ''lxc/risk_db_llm.json''
       ''lxc/threat_map.json'' cached_world =
     (Inr (), cached_world\<lparr>stdout := [''Found existing threat map: lxc/threat_map.json'']\<rparr>)"
  using existing_artifact_reused [of cached_world "''lxc/risk_db.json''" writing_tool "''python3''"
      "''lxc''" "''sbom.json''" "''lxc/risk_db_llm.json''" "''lxc/threat_map.json''" "''code''"]
  by (simp add: os_path_exists_def cached_world_def)

subsection \<open>Order of the stages\<close>

lemma run_command_calls:
  assumes "run_command proc cmd cwd w = (r, w')"
  shows "\<exists>new. calls w' = calls w @ new \<and>
           (\<forall>c \<in> set new. call_cmd c = cmd \<and> call_fs c = fs w)"
proof (cases "proc cmd cwd (fs w)")
  case (Inl exn)
  with assms show ?thesis
    by (auto simp: run_command_def print_out_def Let_def)
next
  case (Inr p)
  then obtain rc f' where "proc cmd cwd (fs w) = Inr (rc, f')" by (cases p) auto
  with assms show ?thesis
    by (auto simp: run_command_def print_out_def print_err_def Let_def split: if_splits)
qed

lemma run_command_success:
  assumes "run_command proc cmd cwd w = (Inr v, w')"
  shows "proc cmd cwd (fs w) = Inr (0, fs w')"
proof (cases "proc cmd cwd (fs w)")
  case (Inl exn)
  with assms show ?thesis
    by (auto simp: run_command_def print_out_def Let_def)
next
  case (Inr p)
  then obtain rc f' where "proc cmd cwd (fs w) = Inr (rc, f')" by (cases p) auto
  with assms show ?thesis
    by (auto simp: run_command_def print_out_def print_err_def Let_def split: if_splits)
qed

lemma extract_stage_calls:
  assumes "extract_stage proc exe lxc_path sbom_path risk_db w = (r, w')"
  shows "\<exists>new. calls w' = calls w @ new \<and>
           (\<forall>c \<in> set new. call_cmd c = extract_cmd exe sbom_path risk_db)"
proof (cases "os_path_exists (fs w) risk_db")
  case True
  with assms show ?thesis by (auto simp: extract_stage_def print_out_def)
next
  case False
  with assms run_command_calls [of proc "extract_cmd exe sbom_path risk_db" "Some lxc_path" w r w']
  show ?thesis by (auto simp: extract_stage_def)
qed

lemma extract_stage_done:
  assumes tool: "\<And>f f'. proc (extract_cmd exe sbom_path risk_db) (Some lxc_path) f = Inr (0, f')
                   \<Longrightarrow> os_path_exists f' risk_db"
    and "extract_stage proc exe lxc_path sbom_path risk_db w = (Inr v, w')"
  shows "os_path_exists (fs w') risk_db"
proof (cases "os_path_exists (fs w) risk_db")
  case True
  with assms(2) show ?thesis by (auto simp: extract_stage_def print_out_def)
next
  case False
  with assms(2) have "run_command proc (extract_cmd exe sbom_path risk_db) (Some lxc_path) w = (Inr v, w')"
    by (simp add: extract_stage_def)
  from tool [OF run_command_success [OF this]] show ?thesis .
qed

lemma enrich_stage_calls:
  assumes "enrich_stage proc exe lxc_path risk_db enriched_db w = (r, w')"
  shows "\<exists>new. calls w' = calls w @ new \<and>
           (\<forall>c \<in> set new. call_cmd c = enrich_cmd exe risk_db enriched_db \<and> call_fs c = fs w)"
proof (cases "os_path_exists (fs w) enriched_db")
  case True
  with assms show ?thesis by (auto simp: enrich_stage_def print_out_def)
next
  case False
  with assms run_command_calls [of proc "enrich_cmd exe risk_db enriched_db" "Some lxc_path" w r w']
  show ?thesis by (auto simp: enrich_stage_def)
qed

lemma enrich_stage_done:
  assumes tool: "\<And>f f'. proc (enrich_cmd exe risk_db enriched_db) (Some lxc_path) f = Inr (0, f')
                   \<Longrightarrow> os_path_exists f' enriched_db"
    and "enrich_stage proc exe lxc_path risk_db enriched_db w = (Inr v, w')"
  shows "os_path_exists (fs w') enriched_db"
proof (cases "os_path_exists (fs w) enriched_db")
  case True
  with assms(2) show ?thesis by (auto simp: enrich_stage_def print_out_def)
next
  case False
  with assms(2) have "run_command proc (enrich_cmd exe risk_db enriched_db) (Some lxc_path) w = (Inr v, w')"
    by (simp add: enrich_stage_def)
  from tool [OF run_command_success [OF this]] show ?thesis .
qed

lemma map_stage_calls:
  assumes "map_stage proc exe lxc_path code_path enriched_db threat_map w = (r, w')"
  shows "\<exists>new. calls w' = calls w @ new \<and>
           (\<forall>c \<in> set new. call_cmd c = map_cmd exe code_path enriched_db threat_map \<and> call_fs c = fs w)"
proof (cases "os_path_exists (fs w) threat_map")
  case True
  with assms show ?thesis by (auto simp: map_stage_def print_out_def)
next
  case False
  with assms run_command_calls [of proc "map_cmd exe code_path enriched_db threat_map" "Some lxc_path" w r w']
  show ?thesis by (auto simp: map_stage_def)
qed

lemma cmds_distinct:
  "extract_cmd exe sbom_path risk_db \<noteq> enrich_cmd exe risk_db enriched_db"
  "extract_cmd exe sbom_path risk_db \<noteq> map_cmd exe code_path enriched_db threat_map"
  "enrich_cmd exe risk_db enriched_db \<noteq> map_cmd exe code_path enriched_db threat_map"
  by (simp_all add: extract_cmd_def enrich_cmd_def map_cmd_def)

text \<open>
  Claim C3, as amended. Provided the extraction tool and the enrichment tool, whenever
  they return 0, leave something at their output path, in every run of
  \<^verbatim>\<open>ensure_mapping\<close> the enrichment tool is started only on a file system where the
  risk database exists and the mapping tool only on one where the enriched database
  exists. Existence is all the program looks at: it never reads an artifact, so an
  empty one passes.
\<close>

theorem stage_order:
  assumes extractor: "\<And>f f'. proc (extract_cmd exe sbom_path risk_db) (Some lxc_path) f = Inr (0, f')
                   \<Longrightarrow> os_path_exists f' risk_db"
    and enricher: "\<And>f f'. proc (enrich_cmd exe risk_db enriched_db) (Some lxc_path) f = Inr (0, f')
                   \<Longrightarrow> os_path_exists f' enriched_db"
    and run: "ensure_mapping proc exe lxc_path code_path sbom_path risk_db enriched_db threat_map w
                = (r, w')"
    and c: "calls w' = calls w @ new" "c \<in> set new"
  shows "(call_cmd c = enrich_cmd exe risk_db enriched_db \<longrightarrow> os_path_exists (call_fs c) risk_db) \<and>
         (call_cmd c = map_cmd exe code_path enriched_db threat_map
            \<longrightarrow> os_path_exists (call_fs c) enriched_db)"
proof -
  obtain r1 w1 where s1: "extract_stage proc exe lxc_path sbom_path risk_db w = (r1, w1)"
    by (cases "extract_stage proc exe lxc_path sbom_path risk_db w") auto
  from extract_stage_calls [OF s1] obtain new1 where
    n1: "calls w1 = calls w @ new1" "\<forall>c \<in> set new1. call_cmd c = extract_cmd exe sbom_path risk_db"
    by blast
  show ?thesis
  proof (cases r1)
    case (Inl e)
    with s1 run have "w' = w1" by (simp add: ensure_mapping_def)
    with n1 c have "call_cmd c = extract_cmd exe sbom_path risk_db" by simp
    then show ?thesis using cmds_distinct by metis
  next
    case (Inr v1)
    with s1 extractor have e1: "os_path_exists (fs w1) risk_db"
      by (intro extract_stage_done) auto
    obtain r2 w2 where s2: "enrich_stage proc exe lxc_path risk_db enriched_db w1 = (r2, w2)"
      by (cases "enrich_stage proc exe lxc_path risk_db enriched_db w1") auto
    from enrich_stage_calls [OF s2] obtain new2 where
      n2: "calls w2 = calls w1 @ new2"
          "\<forall>c \<in> set new2. call_cmd c = enrich_cmd exe risk_db enriched_db \<and> call_fs c = fs w1"
      by blast
    show ?thesis
    proof (cases r2)
      case (Inl e)
      with s1 s2 Inr run have "w' = w2" by (simp add: ensure_mapping_def)
      with n1 n2 c have "c \<in> set new1 \<or> c \<in> set new2" by auto
      with n1 n2 e1 show ?thesis using cmds_distinct by metis
    next
      case (Inr v2)
      with s2 enricher have e2: "os_path_exists (fs w2) enriched_db"
        by (intro enrich_stage_done) auto
      from s1 s2 Inr \<open>r1 = Inr v1\<close> run
      have s3: "map_stage proc exe lxc_path code_path enriched_db threat_map w2 = (r, w')"
        by (simp add: ensure_mapping_def)
      from map_stage_calls [OF s3] obtain new3 where
        n3: "calls w' = calls w2 @ new3"
          "\<forall>c \<in> set new3. call_cmd c = map_cmd exe code_path enriched_db threat_map \<and> call_fs c = fs w2"
        by blast
      with n1 n2 c have "c \<in> set new1 \<or> c \<in> set new2 \<or> c \<in> set new3" by auto
      with n1 n2 n3 e1 e2 show ?thesis using cmds_distinct by metis
    qed
  qed
qed

text \<open>
  The claim as stated fails twice. With an empty file at the risk database's path
  extraction is skipped and the enrichment tool is started on the empty database. With
  tools that return 0 without writing, the enrichment tool is started while the risk
  database does not exist, and the mapping tool while the enriched database does not.
\<close>

theorem stage_order_counterexample:
  "map call_cmd (calls (snd (ensure_mapping writing_tool ''python3'' ''lxc'' ''code'' ''sbom.json''
      ''lxc/risk_db.json'' ''lxc/risk_db_llm.json'' ''lxc/threat_map.json'' stale_world))) =
     [enrich_cmd ''python3'' ''lxc/risk_db.json'' ''lxc/risk_db_llm.json'',
      map_cmd ''python3'' ''code'' ''lxc/risk_db_llm.json'' ''lxc/threat_map.json''] \<and>
   call_fs (hd (calls (snd (ensure_mapping writing_tool ''python3'' ''lxc'' ''code'' ''sbom.json''
      ''lxc/risk_db.json'' ''lxc/risk_db_llm.json'' ''lxc/threat_map.json'' stale_world))))
     ''lxc/risk_db.json'' = Some (File []) \<and>
   map call_cmd (calls (snd (ensure_mapping silent_tool ''python3'' ''lxc'' ''code'' ''sbom.json''
      ''lxc/risk_db.json'' ''lxc/risk_db_llm.json'' ''lxc/threat_map.json'' empty_world))) =
     [extract_cmd ''python3'' ''sbom.json'' ''lxc/risk_db.json'',
      enrich_cmd ''python3'' ''lxc/risk_db.json'' ''lxc/risk_db_llm.json'',
      map_cmd ''python3'' ''code'' ''lxc/risk_db_llm.json'' ''lxc/threat_map.json''] \<and>
   call_fs (calls (snd (ensure_mapping silent_tool ''python3'' ''lxc'' ''code'' ''sbom.json''
      ''lxc/risk_db.json'' ''lxc/risk_db_llm.json'' ''lxc/threat_map.json'' empty_world)) ! 1)
     ''lxc/risk_db.json'' = None \<and>
   call_fs (calls (snd (ensure_mapping silent_tool ''python3'' ''lxc'' ''code'' ''sbom.json''
      ''lxc/risk_db.json'' ''lxc/risk_db_llm.json'' ''lxc/threat_map.json'' empty_world)) ! 2)
     ''lxc/risk_db_llm.json'' = None"
  by (simp add: run_defs tool_defs stale_world_def empty_world_def)

text \<open>
  With tools that write their output, the second child of a run from the empty world
  is the enrichment tool, started when the risk database is there.
\<close>

theorem stage_order_witness:
  "call_cmd (calls (snd (ensure_mapping writing_tool ''python3'' ''lxc'' ''code'' ''sbom.json''
      ''lxc/risk_db.json'' ''lxc/risk_db_llm.json'' ''lxc/threat_map.json'' empty_world)) ! 1) =
     enrich_cmd ''python3'' ''lxc/risk_db.json'' ''lxc/risk_db_llm.json'' \<and>
   os_path_exists (call_fs (calls (snd (ensure_mapping writing_tool ''python3'' ''lxc'' ''code''
      ''sbom.json'' ''lxc/risk_db.json'' ''lxc/risk_db_llm.json'' ''lxc/threat_map.json''
      empty_world)) ! 1)) ''lxc/risk_db.json''"
proof -
  let ?run = "ensure_mapping writing_tool ''python3'' ''lxc'' ''code'' ''sbom.json''
      ''lxc/risk_db.json'' ''lxc/risk_db_llm.json'' ''lxc/threat_map.json'' empty_world"
  let ?f1 = "[''lxc/risk_db.json'' \<mapsto> File ''[]'']"
  let ?f2 = "[''lxc/risk_db.json'' \<mapsto> File ''[]'', ''lxc/risk_db_llm.json'' \<mapsto> File ''[]'']"
  let ?c1 = "\<lparr>call_cmd = extract_cmd ''python3'' ''sbom.json'' ''lxc/risk_db.json'',
              call_cwd = Some ''lxc'', call_fs = Map.empty, call_rc = 0\<rparr>"
  let ?c2 = "\<lparr>call_cmd = enrich_cmd ''python3'' ''lxc/risk_db.json'' ''lxc/risk_db_llm.json'',
              call_cwd = Some ''lxc'', call_fs = ?f1, call_rc = 0\<rparr>"
  let ?c3 = "\<lparr>call_cmd = map_cmd ''python3'' ''code'' ''lxc/risk_db_llm.json'' ''lxc/threat_map.json'',
              call_cwd = Some ''lxc'', call_fs = ?f2, call_rc = 0\<rparr>"
  have extractor: "\<And>f f'. writing_tool (extract_cmd ''python3'' ''sbom.json'' ''lxc/risk_db.json'')
          (Some ''lxc'') f = Inr (0, f') \<Longrightarrow> os_path_exists f' ''lxc/risk_db.json''"
    by (auto simp: writing_tool_def extract_cmd_def os_path_exists_def)
  have enricher: "\<And>f f'. writing_tool (enrich_cmd ''python3'' ''lxc/risk_db.json'' ''lxc/risk_db_llm.json'')
          (Some ''lxc'') f = Inr (0, f') \<Longrightarrow> os_path_exists f' ''lxc/risk_db_llm.json''"
    by (auto simp: writing_tool_def enrich_cmd_def os_path_exists_def)
  have run: "?run = (fst ?run, snd ?run)" by simp
  have cs: "calls (snd ?run) = [?c1, ?c2, ?c3]"
    by (simp add: run_defs tool_defs empty_world_def)
  have new: "calls (snd ?run) = calls empty_world @ [?c1, ?c2, ?c3]"
    unfolding cs by (simp add: empty_world_def)
  have mem: "?c2 \<in> set [?c1, ?c2, ?c3]" by simp
  from stage_order [OF extractor enricher run new mem] show ?thesis
    by (simp add: cs)
qed

subsection \<open>An empty threat map\<close>

text \<open>
  When \<^verbatim>\<open>os.makedirs\<close> raises, the exception ends \<^verbatim>\<open>visualize_calls\<close> on the spot; so it
  does for an output directory below the threat map, a regular file.
\<close>

lemma visualize_calls_makedirs_raises:
  assumes "\<not> os_path_exists (fs w) output_dir" "output_dir \<noteq> []"
    and "makedirs output_dir (fs w) = Inl exn"
  shows "visualize_calls proc makedirs json_load exe ast_path threat_map output_dir w =
           (Inl (Exception exn), w)"
  using assms by (simp add: visualize_calls_def os_makedirs_def)

lemma output_dir_below_a_file:
  "visualize_calls proc plain_makedirs json_load exe ast_path ''lxc/threat_map.json''
     ''lxc/threat_map.json/out'' cached_world =
     (Inl (Exception ''NotADirectoryError''), cached_world)"
  by (rule visualize_calls_makedirs_raises)
     (simp_all add: os_path_exists_def cached_world_def plain_makedirs_def ancestors_def sep_def)


text \<open>
  All three artifacts are there, the threat map is \<^verbatim>\<open>[]\<close>, and \<^verbatim>\<open>output\<close> is not there:
  the workflow returns normally without starting a child, and \<^verbatim>\<open>output\<close> exists
  afterwards.
\<close>


end
